theory Spec2Isabelle
  imports Main "HOL-Library.Sublist" "HOL-Library.AList" "HOL-Library.Multiset"
begin

section \<open>Data model of app.py\<close>

text \<open>
  The backend of \<^verbatim>\<open>app.py\<close> is three small classes (\<^verbatim>\<open>NewsFetcher\<close>,
  \<^verbatim>\<open>GeminiAgent\<close>, \<^verbatim>\<open>PersistenceManager\<close>) and the generator \<^verbatim>\<open>process_all\<close>.
  Strings are HOL strings. The emoji of the source's literals lie beyond HOL's characters
  and are written as their UTF-8 bytes; they occur in literal messages only.

  A raised Python exception is a value \<open>Exn m\<close>, where \<open>m\<close> is what \<^verbatim>\<open>str(e)\<close> gives.
  A published timestamp (a \<^verbatim>\<open>datetime\<close> made by \<^verbatim>\<open>dateutil.parser.parse\<close>) is an
  integer instant: the provider writes RFC 822 dates with a time zone, and such
  datetimes are totally ordered by their instant.
\<close>

datatype exn = Exn string

fun exn_str :: "exn \<Rightarrow> string" where
  "exn_str (Exn m) = m"

text \<open>An entry of the parsed feed: title, optional source title, published date string.\<close>

record raw_entry =
  e_title :: string
  e_source :: "string option"
  e_published :: string

text \<open>The dictionary \<^verbatim>\<open>{"title": ..., "source": ..., "published": ...}\<close>.\<close>

record news_item =
  title :: string
  source :: string
  published :: int

text \<open>The dictionary \<^verbatim>\<open>{"Topic": ..., "Source": ..., "Title": ...}\<close> of the master table.\<close>

record row =
  Topic :: string
  Source :: string
  Title :: string

text \<open>
  One step of iterating the streaming response: a chunk whose \<^verbatim>\<open>text\<close> is read
  (the empty string stands for a falsy text), or an exception raised by the iterator or
  by reading \<^verbatim>\<open>chunk.text\<close>.
\<close>

datatype chunk = Text string | Raises exn

text \<open>
  What the program calls and does not define. The string methods are Python's (given by
  the Unicode tables), \<open>quote\<close> is \<^verbatim>\<open>urllib.parse.quote\<close>, \<open>feedparser_parse\<close> is
  \<^verbatim>\<open>feedparser.parse\<close> (its first argument counts the earlier fetches of the run: the
  provider may answer the same URL differently each time), \<open>dateutil_parse\<close> is
  \<^verbatim>\<open>dateutil.parser.parse\<close>, \<open>generate_content\<close> is the model construction and the
  streaming call together (model name, prompt), and \<open>now_hms\<close> is the clock read by the
  \<open>n\<close>-th log line. A call that raises returns \<open>Inl\<close>.
\<close>

record env =
  str_lower :: "string \<Rightarrow> string"
  str_isalnum :: "char \<Rightarrow> bool"
  str_isspace :: "char \<Rightarrow> bool"
  quote :: "string \<Rightarrow> string"
  feedparser_parse :: "nat \<Rightarrow> string \<Rightarrow> exn + raw_entry list"
  dateutil_parse :: "string \<Rightarrow> exn + int"
  generate_content :: "string \<Rightarrow> string \<Rightarrow> exn + chunk list"
  now_hms :: "nat \<Rightarrow> string"

definition REQUESTED_MODEL :: string where
  "REQUESTED_MODEL = ''gemini-3-flash-preview''"

definition nl :: string where
  "nl = [CHR 0x0A]"

definition cross_mark :: string where
  "cross_mark = [CHR 0xE2, CHR 0x9D, CHR 0x8C]"

definition warning_sign :: string where
  "warning_sign = [CHR 0xE2, CHR 0x9A, CHR 0xA0, CHR 0xEF, CHR 0xB8, CHR 0x8F]"

definition satellite_antenna :: string where
  "satellite_antenna = [CHR 0xF0, CHR 0x9F, CHR 0x93, CHR 0xA1]"

definition magnifier :: string where
  "magnifier = [CHR 0xF0, CHR 0x9F, CHR 0x94, CHR 0x8D]"

definition brain :: string where
  "brain = [CHR 0xF0, CHR 0x9F, CHR 0xA7, CHR 0xA0]"

definition check_mark :: string where
  "check_mark = [CHR 0xE2, CHR 0x9C, CHR 0x85]"

section \<open>NewsFetcher\<close>

subsection \<open>fetch\_google\_rss\<close>

definition rss_url :: "env \<Rightarrow> string \<Rightarrow> string \<Rightarrow> string" where
  "rss_url env query country =
     ''https://news.google.com/rss/search?q='' @ quote env query @ ''&hl=en-'' @ country
       @ ''&gl='' @ country @ ''&ceid='' @ country @ '':en''"

text \<open>
  The list comprehension over \<^verbatim>\<open>feed.entries[:8]\<close>: each entry becomes an item, and
  an exception of \<^verbatim>\<open>parser.parse(e.published)\<close> leaves the comprehension, hence the
  call, at the first entry that raises.
\<close>

fun to_items :: "env \<Rightarrow> raw_entry list \<Rightarrow> exn + news_item list" where
  "to_items env [] = Inr []"
| "to_items env (e # es) =
     (case dateutil_parse env (e_published e) of
        Inl x \<Rightarrow> Inl x
      | Inr ts \<Rightarrow>
          (case to_items env es of
             Inl x \<Rightarrow> Inl x
           | Inr items \<Rightarrow>
               Inr (\<lparr>title = e_title e,
                     source = (case e_source e of Some s \<Rightarrow> s | None \<Rightarrow> ''Google News''),
                     published = ts\<rparr> # items)))"

definition fetch_google_rss :: "env \<Rightarrow> nat \<Rightarrow> string \<Rightarrow> string \<Rightarrow> exn + news_item list" where
  "fetch_google_rss env n query country =
     (case feedparser_parse env n (rss_url env query country) of
        Inl x \<Rightarrow> Inl x
      | Inr entries \<Rightarrow> to_items env (take 8 entries))"

subsection \<open>deduplicate\<close>

definition slug :: "env \<Rightarrow> string \<Rightarrow> string" where
  "slug env t = take 40 (filter (str_isalnum env) (str_lower env t))"

text \<open>The loop over \<^verbatim>\<open>items\<close>, with the set \<^verbatim>\<open>seen\<close> and the list \<^verbatim>\<open>unique\<close>.\<close>

fun dedup_loop :: "env \<Rightarrow> string set \<Rightarrow> news_item list \<Rightarrow> news_item list \<Rightarrow> news_item list" where
  "dedup_loop env seen unique [] = unique"
| "dedup_loop env seen unique (itm # items) =
     (let s = slug env (title itm) in
      if s \<notin> seen then dedup_loop env (insert s seen) (unique @ [itm]) items
      else dedup_loop env seen unique items)"

text \<open>
  \<^verbatim>\<open>list.sort(key=..., reverse=True)\<close>: CPython reverses the list, sorts it with its
  stable ascending sort and reverses the result, so equal keys keep their order.
  \<open>sort_key\<close> is HOL's stable insertion sort.
\<close>

definition sort_reverse :: "('a \<Rightarrow> int) \<Rightarrow> 'a list \<Rightarrow> 'a list" where
  "sort_reverse k xs = rev (sort_key k (rev xs))"

definition deduplicate :: "env \<Rightarrow> news_item list \<Rightarrow> news_item list" where
  "deduplicate env items = sort_reverse published (dedup_loop env {} [] items)"

section \<open>GeminiAgent\<close>

definition item_line :: "news_item \<Rightarrow> string" where
  "item_line itm = ''- '' @ title itm @ '' ('' @ source itm @ '')''"

fun join :: "string \<Rightarrow> string list \<Rightarrow> string" where
  "join sep [] = []"
| "join sep [s] = s"
| "join sep (s # t # ts) = s @ sep @ join sep (t # ts)"

fun context_str :: "(string \<times> news_item list) list \<Rightarrow> string" where
  "context_str [] = []"
| "context_str ((topic, items) # rest) =
     nl @ ''### TOPIC: '' @ topic @ nl @ join nl (map item_line items) @ context_str rest"

definition indent :: string where
  "indent = replicate 8 (CHR '' '')"

definition prompt_of :: "(string \<times> news_item list) list \<Rightarrow> string" where
  "prompt_of all_topics_data =
     nl @ indent @ ''Analyze these news datasets and provide a consolidated intelligence report.''
     @ nl @ indent @ ''For EACH topic, provide:''
     @ nl @ indent @ ''1. A 2-sentence 'Impact Summary'.''
     @ nl @ indent @ ''2. A small table: | Key Event | Sentiment | Potential Outlook |''
     @ nl @ indent
     @ nl @ indent @ ''Final section: 'Cross-Topic Synthesis' - How these areas might intersect.''
     @ nl @ indent @ ''Tone: Crisp, visual, minimal wall-of-text. Use bolding and emojis.''
     @ nl @ indent
     @ nl @ indent @ ''Data:''
     @ nl @ indent @ context_str all_topics_data
     @ nl @ indent"

definition error_text :: "exn \<Rightarrow> string" where
  "error_text e = cross_mark @ '' Error: '' @ exn_str e"

text \<open>
  The loop over the response inside \<^verbatim>\<open>try\<close>: each non-empty text is appended to
  \<^verbatim>\<open>accumulated\<close>, which is yielded; an exception ends the loop in the \<^verbatim>\<open>except\<close>
  branch, which yields the error text.
\<close>

fun stream_loop :: "string \<Rightarrow> chunk list \<Rightarrow> string list" where
  "stream_loop accumulated [] = []"
| "stream_loop accumulated (Text t # response) =
     (if t \<noteq> [] then (accumulated @ t) # stream_loop (accumulated @ t) response
      else stream_loop accumulated response)"
| "stream_loop accumulated (Raises e # response) = [error_text e]"

text \<open>The texts \<^verbatim>\<open>summarize\<close> yields, in order. The dictionary is an association list
  in insertion order.\<close>

definition summarize :: "env \<Rightarrow> (string \<times> news_item list) list \<Rightarrow> string list" where
  "summarize env all_topics_data =
     (if all_topics_data = [] then [''No data gathered.'']
      else
        (case generate_content env REQUESTED_MODEL (prompt_of all_topics_data) of
           Inl e \<Rightarrow> [error_text e]
         | Inr response \<Rightarrow> stream_loop [] response))"

section \<open>The orchestrator process\_all\<close>

text \<open>
  A yielded tuple \<^verbatim>\<open>(ai_out, log_box, raw_df, main_tabs)\<close>. \<^verbatim>\<open>gr.update()\<close> leaves a
  component as it is: \<open>None\<close>. \<^verbatim>\<open>gr.update(selected=k)\<close> is \<open>Some k\<close>. The data frame
  is the list of its rows.
\<close>

record snapshot =
  ai_out :: "string option"
  log_box :: string
  raw_df :: "row list"
  main_tabs :: "nat option"

text \<open>
  What a run does, in order: the tuples it yields, its calls of
  \<^verbatim>\<open>fetcher.fetch_google_rss\<close> (with the index of the topic) and its call of
  \<^verbatim>\<open>agent.summarize\<close> (with the dictionary it passes). The calls of \<^verbatim>\<open>progress\<close>
  only move the progress bar and are left out.
\<close>

datatype event =
  is_Yield: Yield snapshot
| is_Fetch: Fetch (fetch_index: nat) (fetch_topic: string)
| is_Summarize: Summarize "(string \<times> news_item list) list"

datatype outcome = Returned | Raised exn

definition strip :: "env \<Rightarrow> string \<Rightarrow> string" where
  "strip env s = rev (dropWhile (str_isspace env) (rev (dropWhile (str_isspace env) s)))"

definition valid_topics :: "env \<Rightarrow> string \<Rightarrow> string \<Rightarrow> string \<Rightarrow> string list" where
  "valid_topics env t1 t2 t3 = filter (\<lambda>t. t \<noteq> [] \<and> strip env t \<noteq> []) [t1, t2, t3]"

text \<open>The closure \<^verbatim>\<open>log\<close>: it appends a stamped line to \<^verbatim>\<open>logs\<close>; the text shown is
  the lines joined by newlines.\<close>

definition log :: "env \<Rightarrow> string list \<Rightarrow> string \<Rightarrow> string list" where
  "log env logs msg = logs @ [''['' @ now_hms env (length logs) @ ''] '' @ msg]"

definition digit :: "nat \<Rightarrow> char" where
  "digit d = char_of (of_char (CHR ''0'') + d)"

fun str_nat :: "nat \<Rightarrow> string" where
  "str_nat n = (if n < 10 then [digit n] else str_nat (n div 10) @ [digit (n mod 10)])"

definition make_row :: "string \<Rightarrow> news_item \<Rightarrow> row" where
  "make_row topic itm = \<lparr>Topic = topic, Source = source itm, Title = title itm\<rparr>"

text \<open>The state of the loop over the topics: \<^verbatim>\<open>logs\<close>, \<^verbatim>\<open>all_data\<close>, \<^verbatim>\<open>master_table\<close>.\<close>

type_synonym loop_state = "string list \<times> (string \<times> news_item list) list \<times> row list"

fun fetch_loop ::
  "env \<Rightarrow> string \<Rightarrow> nat \<Rightarrow> string list \<Rightarrow> loop_state \<Rightarrow> event list \<times> (exn + loop_state)" where
  "fetch_loop env country idx [] st = ([], Inr st)"
| "fetch_loop env country idx (topic # topics) (logs, all_data, master_table) =
     (let logs1 = log env logs (magnifier @ '' Fetching RSS for: '' @ topic);
          y = Yield \<lparr>ai_out = None, log_box = join nl logs1, raw_df = [], main_tabs = None\<rparr>
      in case fetch_google_rss env idx topic country of
           Inl x \<Rightarrow> ([y, Fetch idx topic], Inl x)
         | Inr raw \<Rightarrow>
             (let clean = deduplicate env raw;
                  (evs, r) = fetch_loop env country (Suc idx) topics
                     (logs1, AList.update topic clean all_data,
                      master_table @ map (make_row topic) clean)
              in (y # Fetch idx topic # evs, r)))"

text \<open>The loop over \<^verbatim>\<open>summary_stream\<close>: one tuple per yielded summary.\<close>

fun summary_loop :: "env \<Rightarrow> row list \<Rightarrow> string list \<Rightarrow> string list \<Rightarrow> event list \<times> string list" where
  "summary_loop env df logs [] = ([], logs)"
| "summary_loop env df logs (summary # rest) =
     (let logs1 = log env logs (brain @ '' AI is thinking...'');
          y = Yield \<lparr>ai_out = Some summary, log_box = join nl logs1, raw_df = df, main_tabs = None\<rparr>;
          (evs, logs2) = summary_loop env df logs1 rest
      in (y # evs, logs2))"

definition process_all :: "env \<Rightarrow> string \<Rightarrow> string \<Rightarrow> string \<Rightarrow> string \<Rightarrow> event list \<times> outcome" where
  "process_all env t1 t2 t3 country =
     (let valid = valid_topics env t1 t2 t3 in
      if valid = [] then
        ([Yield \<lparr>ai_out = Some (warning_sign @ '' Please enter at least one topic.''),
                 log_box = join nl (log env [] ''Aborted: No topics entered.''),
                 raw_df = [], main_tabs = Some 0\<rparr>], Returned)
      else
        (let logs0 = log env [] (''Starting analysis for '' @ str_nat (length valid) @ '' topics...'');
             y0 = Yield \<lparr>ai_out = Some (satellite_antenna @ '' Initializing scan...''),
                         log_box = join nl logs0, raw_df = [], main_tabs = Some 1\<rparr>;
             (evs, r) = fetch_loop env country 0 valid (logs0, [], [])
         in case r of
              Inl x \<Rightarrow> (y0 # evs, Raised x)
            | Inr (logs1, all_data, master_table) \<Rightarrow>
                (let (evs2, logs2) = summary_loop env master_table logs1 (summarize env all_data);
                     logs3 = log env logs2 (check_mark @ '' Success. Intelligence briefing ready.'');
                     y1 = Yield \<lparr>ai_out = None, log_box = join nl logs3,
                                 raw_df = master_table, main_tabs = None\<rparr>
                 in (y0 # evs @ [Summarize all_data] @ evs2 @ [y1], Returned))))"

section \<open>Notions used to state the properties\<close>

text \<open>The deduplication key of an item, and the position in the input of the first item
  that has the key of \<open>x\<close>.\<close>

definition key_of :: "env \<Rightarrow> news_item \<Rightarrow> string" where
  "key_of env itm = slug env (title itm)"

definition input_pos :: "env \<Rightarrow> news_item list \<Rightarrow> news_item \<Rightarrow> nat" where
  "input_pos env items x = length (takeWhile (\<lambda>y. key_of env y \<noteq> key_of env x) items)"

text \<open>The successive values of the accumulator over the non-empty texts of a stream.\<close>

definition accumulators :: "string list \<Rightarrow> string list" where
  "accumulators ts =
     map (\<lambda>n. concat (take (Suc n) (filter (\<lambda>t. t \<noteq> []) ts)))
       [0..<length (filter (\<lambda>t. t \<noteq> []) ts)]"

text \<open>Projections of a run: the tuples it yields, its fetch calls, the dictionaries it
  passes to the summarizer; the part of a run before its \<open>i\<close>-th fetch, and the part
  from the call of the summarizer on.\<close>

fun yields :: "event list \<Rightarrow> snapshot list" where
  "yields [] = []"
| "yields (Yield s # evs) = s # yields evs"
| "yields (e # evs) = yields evs"

fun fetched :: "event list \<Rightarrow> (nat \<times> string) list" where
  "fetched [] = []"
| "fetched (Fetch i topic # evs) = (i, topic) # fetched evs"
| "fetched (e # evs) = fetched evs"

fun summarized :: "event list \<Rightarrow> (string \<times> news_item list) list list" where
  "summarized [] = []"
| "summarized (Summarize d # evs) = d # summarized evs"
| "summarized (e # evs) = summarized evs"

definition before_fetch :: "nat \<Rightarrow> event list \<Rightarrow> event list" where
  "before_fetch i evs = takeWhile (\<lambda>e. \<not> (is_Fetch e \<and> fetch_index e = i)) evs"

definition before_summarize :: "event list \<Rightarrow> event list" where
  "before_summarize evs = takeWhile (\<lambda>e. \<not> is_Summarize e) evs"

definition from_summarize :: "event list \<Rightarrow> event list" where
  "from_summarize evs = dropWhile (\<lambda>e. \<not> is_Summarize e) evs"

text \<open>The deduplicated items of the \<open>i\<close>-th topic of a run (none when its fetch raises),
  their rows, and the rows of a list of topics, topic after topic.\<close>

definition topic_result :: "env \<Rightarrow> string \<Rightarrow> nat \<Rightarrow> string \<Rightarrow> news_item list" where
  "topic_result env country i topic =
     (case fetch_google_rss env i topic country of
        Inl x \<Rightarrow> []
      | Inr raw \<Rightarrow> deduplicate env raw)"

definition topic_rows :: "env \<Rightarrow> string \<Rightarrow> nat \<Rightarrow> string \<Rightarrow> row list" where
  "topic_rows env country i topic = map (make_row topic) (topic_result env country i topic)"

definition rows_from :: "env \<Rightarrow> string \<Rightarrow> nat \<Rightarrow> string list \<Rightarrow> row list" where
  "rows_from env country idx topics =
     concat (map (\<lambda>(i, topic). topic_rows env country i topic) (enumerate idx topics))"

definition rows_of_topic :: "string \<Rightarrow> row list \<Rightarrow> row list" where
  "rows_of_topic topic df = filter (\<lambda>r. Topic r = topic) df"

text \<open>Names for the tuples a run yields outside its summary loop.\<close>

definition fetch_yield :: "env \<Rightarrow> string list \<Rightarrow> string \<Rightarrow> event" where
  "fetch_yield env logs topic =
     Yield \<lparr>ai_out = None,
            log_box = join nl (log env logs (magnifier @ '' Fetching RSS for: '' @ topic)),
            raw_df = [], main_tabs = None\<rparr>"

definition start_logs :: "env \<Rightarrow> string list \<Rightarrow> string list" where
  "start_logs env valid =
     log env [] (''Starting analysis for '' @ str_nat (length valid) @ '' topics...'')"

definition start_yield :: "env \<Rightarrow> string list \<Rightarrow> event" where
  "start_yield env valid =
     Yield \<lparr>ai_out = Some (satellite_antenna @ '' Initializing scan...''),
            log_box = join nl (start_logs env valid), raw_df = [], main_tabs = Some 1\<rparr>"

definition abort_yield :: "env \<Rightarrow> event" where
  "abort_yield env =
     Yield \<lparr>ai_out = Some (warning_sign @ '' Please enter at least one topic.''),
            log_box = join nl (log env [] ''Aborted: No topics entered.''),
            raw_df = [], main_tabs = Some 0\<rparr>"

definition final_yield :: "env \<Rightarrow> string list \<Rightarrow> row list \<Rightarrow> event" where
  "final_yield env logs df =
     Yield \<lparr>ai_out = None,
            log_box = join nl (log env logs (check_mark @ '' Success. Intelligence briefing ready.'')),
            raw_df = df, main_tabs = None\<rparr>"

section \<open>A concrete environment\<close>

text \<open>
  The string methods on ASCII, a feed with five topics, two dates the parser knows, and a
  backend that streams three chunks. \<open>demo_failing\<close> is the same with a backend that
  raises after its first chunk, \<open>demo_unauthorized\<close> with one that raises at the call.
\<close>

definition ascii_lower :: "char \<Rightarrow> char" where
  "ascii_lower c =
     (case map_of (zip ''ABCDEFGHIJKLMNOPQRSTUVWXYZ'' ''abcdefghijklmnopqrstuvwxyz'') c of
        Some d \<Rightarrow> d
      | None \<Rightarrow> c)"

definition ascii_isalnum :: "char \<Rightarrow> bool" where
  "ascii_isalnum c \<longleftrightarrow>
     c \<in> set ''abcdefghijklmnopqrstuvwxyzABCDEFGHIJKLMNOPQRSTUVWXYZ0123456789''"

definition ascii_isspace :: "char \<Rightarrow> bool" where
  "ascii_isspace c \<longleftrightarrow>
     c \<in> set [CHR '' '', CHR 0x09, CHR 0x0A, CHR 0x0B, CHR 0x0C, CHR 0x0D,
               CHR 0x1C, CHR 0x1D, CHR 0x1E, CHR 0x1F]"

definition entry :: "string \<Rightarrow> string option \<Rightarrow> string \<Rightarrow> raw_entry" where
  "entry t s p = \<lparr>e_title = t, e_source = s, e_published = p\<rparr>"

definition monday :: string where
  "monday = ''Mon, 02 Nov 2026 10:00:00 GMT''"

definition tuesday :: string where
  "tuesday = ''Tue, 03 Nov 2026 08:00:00 GMT''"

definition demo_feed :: "nat \<Rightarrow> string \<Rightarrow> exn + raw_entry list" where
  "demo_feed n url =
     (if url = ''https://news.google.com/rss/search?q=AI&hl=en-US&gl=US&ceid=US:en'' then
        Inr [entry ''AI Breakthrough!!'' (Some ''Reuters'') monday,
             entry ''ai breakthrough'' None tuesday,
             entry ''Chips'' (Some ''BBC'') tuesday]
      else if url = ''https://news.google.com/rss/search?q=Space&hl=en-US&gl=US&ceid=US:en'' then
        Inr [entry ''Moon base'' (Some ''ESA'') monday]
      else if url = ''https://news.google.com/rss/search?q=Many&hl=en-US&gl=US&ceid=US:en'' then
        Inr (map (\<lambda>k. entry (''Story '' @ [k]) None monday) ''0123456789'')
      else if url = ''https://news.google.com/rss/search?q=Bad&hl=en-US&gl=US&ceid=US:en'' then
        Inr [entry ''First'' None monday, entry ''Second'' None ''not a date'',
             entry ''Third'' None tuesday]
      else if url = ''https://news.google.com/rss/search?q=Down&hl=en-US&gl=US&ceid=US:en'' then
        Inl (Exn ''feed unreachable'')
      else Inr [])"

definition demo_dates :: "string \<Rightarrow> exn + int" where
  "demo_dates s =
     (if s = monday then Inr 1793613600
      else if s = tuesday then Inr 1793692800
      else Inl (Exn (''Unknown string format: '' @ s)))"

definition demo :: env where
  "demo = \<lparr>str_lower = map ascii_lower, str_isalnum = ascii_isalnum,
            str_isspace = ascii_isspace, quote = (\<lambda>s. s),
            feedparser_parse = demo_feed, dateutil_parse = demo_dates,
            generate_content = (\<lambda>m p. Inr [Text ''Impact'', Text [], Text '' Summary'']),
            now_hms = (\<lambda>n. ''12:00:00'')\<rparr>"

definition item :: "string \<Rightarrow> string \<Rightarrow> int \<Rightarrow> news_item" where
  "item t s p = \<lparr>title = t, source = s, published = p\<rparr>"

definition demo_items :: "news_item list" where
  "demo_items =
     [item ''AI Breakthrough!!'' ''Reuters'' 5, item ''ai breakthrough'' ''Wire'' 9,
      item ''Chips'' ''BBC'' 7, item ''Rockets'' ''ESA'' 7]"

definition bad_entries :: "raw_entry list" where
  "bad_entries =
     [entry ''First'' None monday, entry ''Second'' None ''not a date'',
      entry ''Third'' None tuesday]"

definition demo_ai_result :: "news_item list" where
  "demo_ai_result =
     [item ''Chips'' ''BBC'' 1793692800, item ''AI Breakthrough!!'' ''Reuters'' 1793613600]"

definition demo_table :: "row list" where
  "demo_table =
     [\<lparr>Topic = ''AI'', Source = ''BBC'', Title = ''Chips''\<rparr>,
      \<lparr>Topic = ''AI'', Source = ''Reuters'', Title = ''AI Breakthrough!!''\<rparr>,
      \<lparr>Topic = ''Space'', Source = ''ESA'', Title = ''Moon base''\<rparr>]"

definition demo_unauthorized :: env where
  "demo_unauthorized = demo\<lparr>generate_content := (\<lambda>m p. Inl (Exn ''API key not valid''))\<rparr>"

definition demo_failing :: env where
  "demo_failing =
     demo\<lparr>generate_content := (\<lambda>m p. Inr [Text ''Impact'', Raises (Exn ''quota exceeded'')])\<rparr>"

section \<open>Deduplication: the loop and the sort\<close>

text \<open>The loop only appends to \<open>unique\<close>, so it is studied from the empty list.\<close>

declare dedup_loop.simps(2) [simp del]

lemma dedup_loop_append:
  "dedup_loop env seen unique items = unique @ dedup_loop env seen [] items"
proof (induction items arbitrary: seen unique)
  case Nil
  show ?case by simp
next
  case (Cons itm items)
  show ?case
    using Cons.IH [of "insert (slug env (title itm)) seen" "unique @ [itm]"]
      Cons.IH [of "insert (slug env (title itm)) seen" "[itm]"]
      Cons.IH [of seen unique]
    by (simp add: Let_def dedup_loop.simps(2))
qed

lemma dedup_loop_Cons:
  "dedup_loop env seen [] (itm # items) =
     (if key_of env itm \<in> seen then dedup_loop env seen [] items
      else itm # dedup_loop env (insert (key_of env itm) seen) [] items)"
  using dedup_loop_append [of env "insert (key_of env itm) seen" "[itm]" items]
  by (simp add: Let_def key_of_def dedup_loop.simps(2))

lemma dedup_loop_set:
  "set (dedup_loop env seen [] items) \<subseteq> set items"
  by (induction items arbitrary: seen) (auto simp: dedup_loop_Cons)

lemma dedup_loop_keys:
  "key_of env ` set (dedup_loop env seen [] items) = key_of env ` set items - seen"
  by (induction items arbitrary: seen) (auto simp: dedup_loop_Cons)

lemma dedup_loop_unseen:
  "x \<in> set (dedup_loop env seen [] items) \<Longrightarrow> key_of env x \<notin> seen"
  using dedup_loop_keys [of env seen items] by blast

lemma dedup_loop_distinct:
  "distinct (map (key_of env) (dedup_loop env seen [] items))"
proof (induction items arbitrary: seen)
  case Nil
  show ?case by simp
next
  case (Cons itm items)
  have "key_of env itm \<notin> key_of env ` set (dedup_loop env (insert (key_of env itm) seen) [] items)"
    by (simp add: dedup_loop_keys)
  with Cons.IH show ?case
    by (simp add: dedup_loop_Cons)
qed

lemma dedup_loop_first:
  "x \<in> set (dedup_loop env seen [] items) \<Longrightarrow>
     find (\<lambda>y. key_of env y = key_of env x) items = Some x"
proof (induction items arbitrary: seen)
  case Nil
  then show ?case by simp
next
  case (Cons itm items)
  show ?case
  proof (cases "key_of env itm \<in> seen")
    case True
    with Cons.prems have in_rest: "x \<in> set (dedup_loop env seen [] items)"
      by (simp add: dedup_loop_Cons)
    then have "key_of env x \<notin> seen"
      by (rule dedup_loop_unseen)
    with True have "key_of env itm \<noteq> key_of env x" by metis
    with Cons.IH [OF in_rest] show ?thesis by simp
  next
    case False
    show ?thesis
    proof (cases "x = itm")
      case True
      then show ?thesis by simp
    next
      case neq: False
      with False Cons.prems
      have in_rest: "x \<in> set (dedup_loop env (insert (key_of env itm) seen) [] items)"
        by (simp add: dedup_loop_Cons)
      then have "key_of env x \<notin> insert (key_of env itm) seen"
        by (rule dedup_loop_unseen)
      then have "key_of env x \<noteq> key_of env itm" by simp
      then have "key_of env itm \<noteq> key_of env x" by (rule not_sym)
      with Cons.IH [OF in_rest] show ?thesis by simp
    qed
  qed
qed

lemma dedup_loop_order:
  "sorted_wrt (\<lambda>a b. input_pos env items a < input_pos env items b)
     (dedup_loop env seen [] items)"
proof (induction items arbitrary: seen)
  case Nil
  show ?case by simp
next
  case (Cons itm items)
  have shift: "input_pos env (itm # items) a = Suc (input_pos env items a)"
    if "key_of env a \<noteq> key_of env itm" for a
    using that by (simp add: input_pos_def)
  have keys: "key_of env a \<noteq> key_of env itm"
    if "a \<in> set (dedup_loop env (insert (key_of env itm) seen) [] items)" for a
    using dedup_loop_unseen [OF that] by blast
  have keys': "key_of env a \<noteq> key_of env itm"
    if "a \<in> set (dedup_loop env seen [] items)" "key_of env itm \<in> seen" for a
    using dedup_loop_unseen [OF that(1)] that(2) by metis
  show ?case
  proof (cases "key_of env itm \<in> seen")
    case True
    have "sorted_wrt (\<lambda>a b. input_pos env (itm # items) a < input_pos env (itm # items) b)
            (dedup_loop env seen [] items)"
      by (rule sorted_wrt_mono_rel [OF _ Cons.IH [of seen]]) (simp add: shift keys' True)
    with True show ?thesis by (simp add: dedup_loop_Cons)
  next
    case False
    have "sorted_wrt (\<lambda>a b. input_pos env (itm # items) a < input_pos env (itm # items) b)
            (dedup_loop env (insert (key_of env itm) seen) [] items)"
      by (rule sorted_wrt_mono_rel [OF _ Cons.IH [of "insert (key_of env itm) seen"]])
        (simp add: shift keys)
    moreover have "input_pos env (itm # items) itm = 0"
      by (simp add: input_pos_def)
    ultimately show ?thesis
      using False by (simp add: dedup_loop_Cons shift keys)
  qed
qed

lemma dedup_loop_id:
  "distinct (map (key_of env) items) \<Longrightarrow> key_of env ` set items \<inter> seen = {} \<Longrightarrow>
     dedup_loop env seen [] items = items"
  by (induction items arbitrary: seen) (auto simp: dedup_loop_Cons)

lemma sort_reverse_mset: "mset (sort_reverse k xs) = mset xs"
  by (simp add: sort_reverse_def)

lemma sort_reverse_set: "set (sort_reverse k xs) = set xs"
  by (simp add: sort_reverse_def)

lemma sort_reverse_sorted: "sorted_wrt (\<lambda>a b. k a \<ge> k b) (sort_reverse k xs)"
proof -
  have "sorted (map k (sort_key k (rev xs)))" by simp
  then have "sorted_wrt (\<lambda>a b. k a \<le> k b) (sort_key k (rev xs))"
    by (simp add: sorted_map)
  then show ?thesis
    by (simp add: sort_reverse_def sorted_wrt_rev)
qed

lemma sort_reverse_stable:
  "filter (\<lambda>x. k x = t) (sort_reverse k xs) = filter (\<lambda>x. k x = t) xs"
proof -
  have "filter (\<lambda>x. k x = t) (sort_key k (rev xs)) = filter (\<lambda>x. k x = t) (rev xs)"
    by (rule sort_key_stable)
  then have "rev (filter (\<lambda>x. k x = t) (sort_key k (rev xs))) = rev (filter (\<lambda>x. k x = t) (rev xs))"
    by simp
  then show ?thesis
    unfolding sort_reverse_def rev_filter by simp
qed

lemma sort_reverse_id:
  "sorted_wrt (\<lambda>a b. k a \<ge> k b) xs \<Longrightarrow> sort_reverse k xs = xs"
proof -
  assume "sorted_wrt (\<lambda>a b. k a \<ge> k b) xs"
  then have "sorted_wrt (\<lambda>a b. k a \<le> k b) (rev xs)"
    by (simp add: sorted_wrt_rev)
  then have "sorted (map k (rev xs))"
    by (simp add: sorted_map)
  then have "sort_key k (rev xs) = rev xs"
    by (rule sort_key_id_if_sorted)
  then show ?thesis by (simp add: sort_reverse_def)
qed

lemma deduplicate_set: "set (deduplicate env items) = set (dedup_loop env {} [] items)"
  by (simp add: deduplicate_def sort_reverse_set)

lemma deduplicate_distinct: "distinct (map (key_of env) (deduplicate env items))"
proof -
  have "mset (map (key_of env) (deduplicate env items))
      = mset (map (key_of env) (dedup_loop env {} [] items))"
    by (simp add: deduplicate_def sort_reverse_mset)
  then have "distinct (map (key_of env) (deduplicate env items))
      = distinct (map (key_of env) (dedup_loop env {} [] items))"
    by (rule mset_eq_imp_distinct_iff)
  then show ?thesis
    by (simp add: dedup_loop_distinct)
qed

lemma deduplicate_sorted:
  "sorted_wrt (\<lambda>a b. published a \<ge> published b) (deduplicate env items)"
  by (simp add: deduplicate_def sort_reverse_sorted)

lemmas demo_simps = demo_def ascii_lower_def ascii_isalnum_def ascii_isspace_def
  slug_def key_of_def deduplicate_def sort_reverse_def dedup_loop.simps item_def

lemma deduplicate_demo_items:
  "deduplicate demo demo_items
     = [item ''Chips'' ''BBC'' 7, item ''Rockets'' ''ESA'' 7,
        item ''AI Breakthrough!!'' ''Reuters'' 5]"
  by (simp add: demo_simps demo_items_def)

text \<open>
  Claim C1. For every input sequence of news items, \<open>deduplicate\<close> returns a sequence in
  which no two items share the deduplication key (the title in lower case, its
  alphanumeric characters only, cut to 40 characters); every key of the input is kept,
  by the first input item that has it; the result is sorted by \<open>published\<close>, descending;
  and items of equal timestamp stand in the order of their input positions.
\<close>

theorem deduplicate_first_seen_sorted:
  "distinct (map (key_of env) (deduplicate env items)) \<and>
   key_of env ` set (deduplicate env items) = key_of env ` set items \<and>
   (\<forall>x \<in> set (deduplicate env items).
      find (\<lambda>y. key_of env y = key_of env x) items = Some x) \<and>
   sorted_wrt (\<lambda>a b. published a \<ge> published b) (deduplicate env items) \<and>
   (\<forall>t. sorted_wrt (\<lambda>a b. input_pos env items a < input_pos env items b)
          (filter (\<lambda>x. published x = t) (deduplicate env items)))"
proof -
  have c2: "key_of env ` set (deduplicate env items) = key_of env ` set items"
    by (simp add: deduplicate_set dedup_loop_keys)
  have c3: "\<forall>x \<in> set (deduplicate env items).
      find (\<lambda>y. key_of env y = key_of env x) items = Some x"
    by (simp add: deduplicate_set dedup_loop_first)
  have c5: "sorted_wrt (\<lambda>a b. input_pos env items a < input_pos env items b)
          (filter (\<lambda>x. published x = t) (deduplicate env items))" for t
    unfolding deduplicate_def sort_reverse_stable
    by (rule sorted_wrt_filter) (rule dedup_loop_order)
  from deduplicate_distinct c2 c3 deduplicate_sorted c5 show ?thesis by blast
qed

theorem deduplicate_first_seen_sorted_witness:
  "deduplicate demo demo_items
     = [item ''Chips'' ''BBC'' 7, item ''Rockets'' ''ESA'' 7,
        item ''AI Breakthrough!!'' ''Reuters'' 5] \<and>
   item ''AI Breakthrough!!'' ''Reuters'' 5 \<in> set (deduplicate demo demo_items) \<and>
   find (\<lambda>y. key_of demo y = key_of demo (item ''AI Breakthrough!!'' ''Reuters'' 5)) demo_items
     = Some (item ''AI Breakthrough!!'' ''Reuters'' 5) \<and>
   distinct (map (key_of demo) (deduplicate demo demo_items)) \<and>
   input_pos demo demo_items (item ''Chips'' ''BBC'' 7)
     < input_pos demo demo_items (item ''Rockets'' ''ESA'' 7)"
proof -
  note spec = deduplicate_first_seen_sorted [of demo demo_items]
  have mem: "item ''AI Breakthrough!!'' ''Reuters'' 5 \<in> set (deduplicate demo demo_items)"
    by (simp add: deduplicate_demo_items)
  with spec have first:
    "find (\<lambda>y. key_of demo y = key_of demo (item ''AI Breakthrough!!'' ''Reuters'' 5)) demo_items
       = Some (item ''AI Breakthrough!!'' ''Reuters'' 5)"
    by blast
  from spec have "sorted_wrt (\<lambda>a b. input_pos demo demo_items a < input_pos demo demo_items b)
      (filter (\<lambda>x. published x = 7) (deduplicate demo demo_items))"
    by blast
  then have pos: "input_pos demo demo_items (item ''Chips'' ''BBC'' 7)
      < input_pos demo demo_items (item ''Rockets'' ''ESA'' 7)"
    by (simp add: deduplicate_demo_items item_def)
  from spec have "distinct (map (key_of demo) (deduplicate demo demo_items))"
    by blast
  with deduplicate_demo_items mem first pos show ?thesis
    by blast
qed

text \<open>
  Claim C10. \<open>deduplicate\<close> is idempotent: applied to its own output, it returns that
  output unchanged.
\<close>

theorem deduplicate_idempotent:
  "deduplicate env (deduplicate env items) = deduplicate env items"
proof -
  let ?out = "deduplicate env items"
  have "distinct (map (key_of env) ?out)"
    by (rule deduplicate_distinct)
  then have loop: "dedup_loop env {} [] ?out = ?out"
    by (rule dedup_loop_id) simp
  have "sort_reverse published ?out = ?out"
    by (rule sort_reverse_id) (rule deduplicate_sorted)
  with loop show ?thesis
    by (simp add: deduplicate_def [of env "deduplicate env items"])
qed

theorem deduplicate_idempotent_witness:
  "deduplicate demo
     [item ''Chips'' ''BBC'' 7, item ''Rockets'' ''ESA'' 7,
      item ''AI Breakthrough!!'' ''Reuters'' 5]
   = [item ''Chips'' ''BBC'' 7, item ''Rockets'' ''ESA'' 7,
      item ''AI Breakthrough!!'' ''Reuters'' 5]"
  using deduplicate_idempotent [of demo demo_items]
  by (simp only: deduplicate_demo_items)

section \<open>The fetch\<close>

lemma to_items_length: "to_items env es = Inr items \<Longrightarrow> length items = length es"
  by (induction es arbitrary: items) (auto split: sum.splits)




lemmas fetch_simps = fetch_google_rss_def rss_url_def demo_def demo_feed_def demo_dates_def
  entry_def monday_def tuesday_def item_def bad_entries_def

lemma fetch_demo_many:
  "fetch_google_rss demo 0 ''Many'' ''US''
     = Inr (map (\<lambda>k. item (''Story '' @ [k]) ''Google News'' 1793613600) ''01234567'')"
  by (simp add: fetch_simps)



text \<open>
  Claim C7. For every topic, region and provider response, a single fetch call that
  returns, returns at most 8 entries.
\<close>

theorem fetch_cap:
  "fetch_google_rss env n query country = Inr items \<Longrightarrow> length items \<le> 8"
  by (auto simp: fetch_google_rss_def dest: to_items_length split: sum.splits)

theorem fetch_cap_witness:
  "map_sum id length (feedparser_parse demo 0 (rss_url demo ''Many'' ''US'')) = Inr 10 \<and>
   fetch_google_rss demo 0 ''Many'' ''US''
     = Inr (map (\<lambda>k. item (''Story '' @ [k]) ''Google News'' 1793613600) ''01234567'') \<and>
   length (map (\<lambda>k. item (''Story '' @ [k]) ''Google News'' 1793613600) ''01234567'') \<le> 8"
proof -
  have "map_sum id length (feedparser_parse demo 0 (rss_url demo ''Many'' ''US'')) = Inr 10"
    by (simp add: fetch_simps)
  with fetch_demo_many fetch_cap [OF fetch_demo_many] show ?thesis
    by blast
qed




section \<open>The summary stream\<close>

lemma accumulators_Nil: "accumulators [] = []"
  by (simp add: accumulators_def)

lemma accumulators_Cons:
  "accumulators (t # ts) =
     (if t = [] then accumulators ts else t # map ((@) t) (accumulators ts))"
proof -
  have "map f [0..<Suc n] = f 0 # map (\<lambda>k. f (Suc k)) [0..<n]" for f :: "nat \<Rightarrow> string" and n
    by (simp only: upt_conv_Cons [of 0 "Suc n"] zero_less_Suc if_True list.map
        map_Suc_upt [symmetric] map_map comp_def)
  then show ?thesis
    by (simp add: accumulators_def comp_def del: upt_Suc)
qed

lemma map_append_Nil: "map ((@) []) xs = xs"
  by (induction xs) simp_all

lemma stream_loop_texts:
  "stream_loop acc (map Text ts) = map ((@) acc) (accumulators ts)"
  by (induction ts arbitrary: acc) (simp_all add: accumulators_Nil accumulators_Cons)

lemma stream_loop_raises:
  "stream_loop acc (map Text ts @ Raises e # rest) = map ((@) acc) (accumulators ts) @ [error_text e]"
  by (induction ts arbitrary: acc) (simp_all add: accumulators_Nil accumulators_Cons)

lemma accumulators_prefix:
  assumes "Suc i < length (accumulators ts)"
  shows "prefix (accumulators ts ! i) (accumulators ts ! Suc i)"
proof -
  let ?ne = "filter (\<lambda>t. t \<noteq> []) ts"
  from assms have len: "Suc i < length ?ne"
    by (simp add: accumulators_def)
  then have "take (Suc (Suc i)) ?ne = take (Suc i) ?ne @ [?ne ! Suc i]"
    by (rule take_Suc_conv_app_nth)
  then have "concat (take (Suc (Suc i)) ?ne) = concat (take (Suc i) ?ne) @ ?ne ! Suc i"
    by simp
  with len show ?thesis
    by (simp add: accumulators_def)
qed

lemma summarize_failure:
  assumes "all_topics_data \<noteq> []"
    and "generate_content env REQUESTED_MODEL (prompt_of all_topics_data) = Inl e \<and> ts = [] \<or>
         (\<exists>rest. generate_content env REQUESTED_MODEL (prompt_of all_topics_data)
                  = Inr (map Text ts @ Raises e # rest))"
  shows "summarize env all_topics_data = accumulators ts @ [error_text e]"
  using assms
  by (auto simp: summarize_def stream_loop_raises accumulators_Nil map_append_Nil)

text \<open>
  Claim C5. For every non-empty topic mapping and every stream of chunks read without an
  exception, the texts \<open>summarize\<close> yields are the successive values of the accumulator
  (the \<open>n\<close>-th is the concatenation of the first \<open>n\<close> non-empty chunk texts), so each
  yielded text has the one yielded before it as a prefix.
\<close>

theorem summarize_running_accumulator:
  assumes "all_topics_data \<noteq> []"
    and "generate_content env REQUESTED_MODEL (prompt_of all_topics_data) = Inr (map Text ts)"
  shows "summarize env all_topics_data = accumulators ts \<and>
         (\<forall>i. Suc i < length (summarize env all_topics_data) \<longrightarrow>
            prefix (summarize env all_topics_data ! i) (summarize env all_topics_data ! Suc i))"
proof -
  from assms have eq: "summarize env all_topics_data = accumulators ts"
    by (simp add: summarize_def stream_loop_texts map_append_Nil)
  then show ?thesis
    by (simp add: accumulators_prefix)
qed

theorem summarize_running_accumulator_witness:
  "[(''AI'', [])] \<noteq> ([] :: (string \<times> news_item list) list) \<and>
   generate_content demo REQUESTED_MODEL (prompt_of [(''AI'', [])])
     = Inr (map Text [''Impact'', [], '' Summary'']) \<and>
   summarize demo [(''AI'', [])] = [''Impact'', ''Impact Summary''] \<and>
   prefix (summarize demo [(''AI'', [])] ! 0) (summarize demo [(''AI'', [])] ! Suc 0)"
proof -
  have gen: "generate_content demo REQUESTED_MODEL (prompt_of [(''AI'', [])])
      = Inr (map Text [''Impact'', [], '' Summary''])"
    by (simp add: demo_def)
  have ne: "[(''AI'', [])] \<noteq> ([] :: (string \<times> news_item list) list)"
    by simp
  note spec = summarize_running_accumulator [OF ne gen]
  have acc: "accumulators [''Impact'', [], '' Summary''] = [''Impact'', ''Impact Summary'']"
    by (simp add: accumulators_Cons accumulators_Nil)
  from spec acc have val: "summarize demo [(''AI'', [])] = [''Impact'', ''Impact Summary'']"
    by simp
  then have "Suc 0 < length (summarize demo [(''AI'', [])])"
    by simp
  with spec have "prefix (summarize demo [(''AI'', [])] ! 0) (summarize demo [(''AI'', [])] ! Suc 0)"
    by blast
  with ne gen val show ?thesis
    by blast
qed

section \<open>The run: the fetch loop\<close>

declare str_nat.simps [simp del]

lemma yields_append: "yields (xs @ ys) = yields xs @ yields ys"
  by (induction xs rule: yields.induct) simp_all

lemma fetched_append: "fetched (xs @ ys) = fetched xs @ fetched ys"
  by (induction xs rule: fetched.induct) simp_all

lemma summarized_append: "summarized (xs @ ys) = summarized xs @ summarized ys"
  by (induction xs rule: summarized.induct) simp_all

lemma update_fresh: "k \<notin> fst ` set al \<Longrightarrow> AList.update k v al = al @ [(k, v)]"
  by (induction al) auto

lemma rows_from_Nil: "rows_from env country idx [] = []"
  by (simp add: rows_from_def)

lemma rows_from_Cons:
  "rows_from env country idx (topic # topics)
     = topic_rows env country idx topic @ rows_from env country (Suc idx) topics"
  by (simp add: rows_from_def)

lemma fetch_loop_raise:
  "fetch_google_rss env idx topic country = Inl x \<Longrightarrow>
     fetch_loop env country idx (topic # topics) (logs, all_data, master_table)
       = ([fetch_yield env logs topic, Fetch idx topic], Inl x)"
  by (simp add: fetch_yield_def Let_def)

lemma fetch_loop_step:
  "fetch_google_rss env idx topic country = Inr raw \<Longrightarrow>
     fetch_loop env country idx (topic # topics) (logs, all_data, master_table)
       = (fetch_yield env logs topic # Fetch idx topic #
            fst (fetch_loop env country (Suc idx) topics
              (log env logs (magnifier @ '' Fetching RSS for: '' @ topic),
               AList.update topic (deduplicate env raw) all_data,
               master_table @ map (make_row topic) (deduplicate env raw))),
          snd (fetch_loop env country (Suc idx) topics
              (log env logs (magnifier @ '' Fetching RSS for: '' @ topic),
               AList.update topic (deduplicate env raw) all_data,
               master_table @ map (make_row topic) (deduplicate env raw))))"
  by (simp add: fetch_yield_def Let_def split: prod.splits)

declare fetch_loop.simps(2) [simp del]

lemma fetch_loop_events:
  "(\<forall>s \<in> set (yields (fst (fetch_loop env country idx topics st))). raw_df s = []) \<and>
   (\<forall>e \<in> set (fst (fetch_loop env country idx topics st)). \<not> is_Summarize e)"
proof (induction topics arbitrary: idx st)
  case Nil
  show ?case by simp
next
  case (Cons topic topics)
  obtain logs all_data master_table where st: "st = (logs, all_data, master_table)"
    by (cases st) auto
  show ?case
  proof (cases "fetch_google_rss env idx topic country")
    case (Inl x)
    then show ?thesis
      by (simp add: st fetch_loop_raise fetch_yield_def)
  next
    case (Inr raw)
    with Cons.IH show ?thesis
      by (simp add: st fetch_loop_step fetch_yield_def)
  qed
qed

lemma fetch_loop_returns:
  "fetch_loop env country idx topics (logs, all_data, master_table)
     = (evs, Inr (logs', all_data', master_table')) \<Longrightarrow>
   master_table' = master_table @ rows_from env country idx topics \<and>
   fetched evs = enumerate idx topics \<and>
   (\<forall>(i, topic) \<in> set (enumerate idx topics). \<not> isl (fetch_google_rss env i topic country))"
proof (induction topics arbitrary: idx logs all_data master_table evs)
  case Nil
  then show ?case by (simp add: rows_from_Nil)
next
  case (Cons topic topics)
  show ?case
  proof (cases "fetch_google_rss env idx topic country")
    case (Inl x)
    with Cons.prems show ?thesis
      by (simp add: fetch_loop_raise)
  next
    case (Inr raw)
    let ?rest = "fetch_loop env country (Suc idx) topics
              (log env logs (magnifier @ '' Fetching RSS for: '' @ topic),
               AList.update topic (deduplicate env raw) all_data,
               master_table @ map (make_row topic) (deduplicate env raw))"
    from Cons.prems Inr have evs: "evs = fetch_yield env logs topic # Fetch idx topic # fst ?rest"
      and r: "snd ?rest = Inr (logs', all_data', master_table')"
      by (simp_all add: fetch_loop_step)
    from r have "?rest = (fst ?rest, Inr (logs', all_data', master_table'))"
      by (simp add: prod_eq_iff)
    from Cons.IH [OF this]
    have "master_table' = (master_table @ map (make_row topic) (deduplicate env raw))
              @ rows_from env country (Suc idx) topics"
      and "fetched (fst ?rest) = enumerate (Suc idx) topics"
      and "\<forall>(i, topic) \<in> set (enumerate (Suc idx) topics).
             \<not> isl (fetch_google_rss env i topic country)"
      by blast+
    with Inr evs show ?thesis
      by (simp add: rows_from_Cons topic_rows_def topic_result_def fetch_yield_def)
  qed
qed

lemma fetch_loop_all_data:
  "fetch_loop env country idx topics (logs, all_data, master_table)
     = (evs, Inr (logs', all_data', master_table')) \<Longrightarrow>
   distinct topics \<Longrightarrow> set topics \<inter> fst ` set all_data = {} \<Longrightarrow>
   all_data' = all_data
      @ map (\<lambda>(i, topic). (topic, topic_result env country i topic)) (enumerate idx topics)"
proof (induction topics arbitrary: idx logs all_data master_table evs)
  case Nil
  then show ?case by simp
next
  case (Cons topic topics)
  show ?case
  proof (cases "fetch_google_rss env idx topic country")
    case (Inl x)
    with Cons.prems show ?thesis
      by (simp add: fetch_loop_raise)
  next
    case (Inr raw)
    let ?d = "AList.update topic (deduplicate env raw) all_data"
    let ?rest = "fetch_loop env country (Suc idx) topics
              (log env logs (magnifier @ '' Fetching RSS for: '' @ topic), ?d,
               master_table @ map (make_row topic) (deduplicate env raw))"
    from Cons.prems have fresh: "topic \<notin> fst ` set all_data"
      by auto
    then have d: "?d = all_data @ [(topic, deduplicate env raw)]"
      by (rule update_fresh)
    from Cons.prems(1) Inr have r: "snd ?rest = Inr (logs', all_data', master_table')"
      by (simp add: fetch_loop_step)
    then have eq: "?rest = (fst ?rest, Inr (logs', all_data', master_table'))"
      by (simp add: prod_eq_iff)
    from Cons.prems have dist: "distinct topics" and disj: "set topics \<inter> fst ` set ?d = {}"
      by (auto simp: d)
    from Cons.IH [OF eq dist disj]
    show ?thesis
      by (simp add: d Inr topic_result_def)
  qed
qed


section \<open>The run: the summary loop and the shape of a run\<close>

lemma summary_loop_events:
  "map ai_out (yields (fst (summary_loop env df logs texts))) = map Some texts \<and>
   (\<forall>s \<in> set (yields (fst (summary_loop env df logs texts))). raw_df s = df) \<and>
   (\<forall>e \<in> set (fst (summary_loop env df logs texts)). is_Yield e)"
  by (induction texts arbitrary: logs) (simp_all add: Let_def case_prod_beta)

lemma only_yields:
  "\<forall>e \<in> set evs. is_Yield e \<Longrightarrow>
     fetched evs = [] \<and> summarized evs = [] \<and> (\<forall>e \<in> set evs. \<not> is_Summarize e)"
  by (induction evs rule: yields.induct) auto

lemma no_summarize: "\<forall>e \<in> set evs. \<not> is_Summarize e \<Longrightarrow> summarized evs = []"
  by (induction evs rule: summarized.induct) auto

lemma split_at_summarize:
  assumes "\<forall>e \<in> set evs. \<not> is_Summarize e"
  shows "before_summarize (evs @ Summarize d # rest) = evs"
    and "from_summarize (evs @ Summarize d # rest) = Summarize d # rest"
  using assms
  by (simp_all add: before_summarize_def from_summarize_def takeWhile_append2 dropWhile_append2)

lemma split_without_summarize:
  assumes "\<forall>e \<in> set evs. \<not> is_Summarize e"
  shows "before_summarize evs = evs" and "from_summarize evs = []"
  using assms
  by (simp_all add: before_summarize_def from_summarize_def)

lemma process_all_none:
  "valid_topics env t1 t2 t3 = [] \<Longrightarrow>
     process_all env t1 t2 t3 country = ([abort_yield env], Returned)"
  by (simp add: process_all_def abort_yield_def)

lemma process_all_raised:
  assumes "valid_topics env t1 t2 t3 = valid" and "valid \<noteq> []"
    and "snd (fetch_loop env country 0 valid (start_logs env valid, [], [])) = Inl x"
  shows "process_all env t1 t2 t3 country
     = (start_yield env valid # fst (fetch_loop env country 0 valid (start_logs env valid, [], [])),
        Raised x)"
  using assms
  by (simp add: process_all_def start_yield_def start_logs_def Let_def case_prod_beta)

lemma process_all_returned:
  assumes "valid_topics env t1 t2 t3 = valid" and "valid \<noteq> []"
    and "snd (fetch_loop env country 0 valid (start_logs env valid, [], []))
           = Inr (logs1, all_data, master_table)"
  shows "process_all env t1 t2 t3 country
     = (start_yield env valid # fst (fetch_loop env country 0 valid (start_logs env valid, [], []))
          @ Summarize all_data
          # fst (summary_loop env master_table logs1 (summarize env all_data))
          @ [final_yield env (snd (summary_loop env master_table logs1 (summarize env all_data)))
               master_table],
        Returned)"
  using assms
  by (simp add: process_all_def start_yield_def start_logs_def final_yield_def Let_def
      case_prod_beta)

lemma run_cases [case_names none raised returned]:
  obtains
    (none) "valid_topics env t1 t2 t3 = []"
      and "process_all env t1 t2 t3 country = ([abort_yield env], Returned)"
  | (raised) x evs where "valid_topics env t1 t2 t3 \<noteq> []"
      and "process_all env t1 t2 t3 country
             = (start_yield env (valid_topics env t1 t2 t3) # evs, Raised x)"
      and "\<forall>s \<in> set (yields evs). raw_df s = []"
      and "\<forall>e \<in> set evs. \<not> is_Summarize e"
  | (returned) evs all_data sevs logs2 where "valid_topics env t1 t2 t3 \<noteq> []"
      and "process_all env t1 t2 t3 country
             = (start_yield env (valid_topics env t1 t2 t3) # evs @ Summarize all_data # sevs
                  @ [final_yield env logs2 (rows_from env country 0 (valid_topics env t1 t2 t3))],
                Returned)"
      and "\<forall>s \<in> set (yields evs). raw_df s = []"
      and "\<forall>e \<in> set evs. \<not> is_Summarize e"
      and "fetched evs = enumerate 0 (valid_topics env t1 t2 t3)"
      and "map ai_out (yields sevs) = map Some (summarize env all_data)"
      and "\<forall>s \<in> set (yields sevs). raw_df s = rows_from env country 0 (valid_topics env t1 t2 t3)"
      and "\<forall>e \<in> set sevs. is_Yield e"
      and "distinct (valid_topics env t1 t2 t3) \<longrightarrow>
             all_data = map (\<lambda>(i, topic). (topic, topic_result env country i topic))
                          (enumerate 0 (valid_topics env t1 t2 t3))"
proof -
  let ?valid = "valid_topics env t1 t2 t3"
  let ?L = "fetch_loop env country 0 ?valid (start_logs env ?valid, [], [])"
  note ev = fetch_loop_events [of env country 0 ?valid "(start_logs env ?valid, [], [])"]
  show thesis
  proof (cases "?valid = []")
    case True
    show thesis
      by (rule none [OF True process_all_none [OF True]])
  next
    case False
    show thesis
    proof (cases "snd ?L")
      case (Inl x)
      show thesis
      proof (rule raised [OF False])
        show "process_all env t1 t2 t3 country = (start_yield env ?valid # fst ?L, Raised x)"
          by (rule process_all_raised [OF refl False Inl])
        show "\<forall>s \<in> set (yields (fst ?L)). raw_df s = []"
          using ev by blast
        show "\<forall>e \<in> set (fst ?L). \<not> is_Summarize e"
          using ev by blast
      qed
    next
      case (Inr st)
      obtain logs1 all_data master_table where st: "st = (logs1, all_data, master_table)"
        by (cases st) auto
      let ?S = "summary_loop env master_table logs1 (summarize env all_data)"
      note sev = summary_loop_events [of env master_table logs1 "summarize env all_data"]
      from Inr st have L: "?L = (fst ?L, Inr (logs1, all_data, master_table))"
        by (simp add: prod_eq_iff)
      from fetch_loop_returns [OF L]
      have m: "master_table = rows_from env country 0 ?valid"
        and f: "fetched (fst ?L) = enumerate 0 ?valid"
        by simp_all
      show thesis
      proof (rule returned [OF False])
        show "process_all env t1 t2 t3 country
             = (start_yield env ?valid # fst ?L @ Summarize all_data # fst ?S
                  @ [final_yield env (snd ?S) (rows_from env country 0 ?valid)], Returned)"
          using process_all_returned [OF refl False, of country logs1 all_data master_table]
            Inr st m by simp
        show "\<forall>s \<in> set (yields (fst ?L)). raw_df s = []"
          using ev by blast
        show "\<forall>e \<in> set (fst ?L). \<not> is_Summarize e"
          using ev by blast
        show "fetched (fst ?L) = enumerate 0 ?valid"
          by (rule f)
        show "map ai_out (yields (fst ?S)) = map Some (summarize env all_data)"
          using sev by blast
        show "\<forall>s \<in> set (yields (fst ?S)). raw_df s = rows_from env country 0 ?valid"
          using sev m by blast
        show "\<forall>e \<in> set (fst ?S). is_Yield e"
          using sev by blast
        show "distinct ?valid \<longrightarrow>
             all_data = map (\<lambda>(i, topic). (topic, topic_result env country i topic))
                          (enumerate 0 ?valid)"
          using fetch_loop_all_data [OF L] by simp
      qed
    qed
  qed
qed

lemma yields_final [simp]: "yields [final_yield env logs df] = [\<lparr>ai_out = None,
            log_box = join nl (log env logs (check_mark @ '' Success. Intelligence briefing ready.'')),
            raw_df = df, main_tabs = None\<rparr>]"
  by (simp add: final_yield_def)

lemma yields_start [simp]: "yields (start_yield env valid # evs) =
   \<lparr>ai_out = Some (satellite_antenna @ '' Initializing scan...''),
            log_box = join nl (start_logs env valid), raw_df = [], main_tabs = Some 1\<rparr> # yields evs"
  by (simp add: start_yield_def)

lemma start_not_summarize [simp]: "\<not> is_Summarize (start_yield env valid)"
  by (simp add: start_yield_def)

lemma strip_Nil: "strip env [] = []"
  by (simp add: strip_def)

lemma rows_of_topic_map:
  "rows_of_topic topic (map (make_row t) items) = (if t = topic then map (make_row t) items else [])"
  by (induction items) (simp_all add: rows_of_topic_def make_row_def)

lemma rows_of_topic_append:
  "rows_of_topic topic (xs @ ys) = rows_of_topic topic xs @ rows_of_topic topic ys"
  by (simp add: rows_of_topic_def)

lemma rows_of_topic_absent:
  "topic \<notin> fst ` set d \<Longrightarrow>
     rows_of_topic topic (concat (map (\<lambda>(t, items). map (make_row t) items) d)) = []"
proof (induction d)
  case Nil
  show ?case by (simp add: rows_of_topic_def)
next
  case (Cons p d)
  then show ?case
    by (cases p) (auto simp: rows_of_topic_append rows_of_topic_map)
qed

lemma rows_of_topic_present:
  "distinct (map fst d) \<Longrightarrow> map_of d topic = Some items \<Longrightarrow>
     rows_of_topic topic (concat (map (\<lambda>(t, items). map (make_row t) items) d))
       = map (make_row topic) items"
proof (induction d)
  case Nil
  then show ?case by simp
next
  case (Cons p d)
  obtain t its where p: "p = (t, its)" by (cases p) auto
  show ?case
  proof (cases "t = topic")
    case True
    with Cons.prems p have "topic \<notin> fst ` set d" and "its = items"
      by auto
    with True p show ?thesis
      by (simp add: rows_of_topic_append rows_of_topic_map rows_of_topic_absent)
  next
    case False
    with Cons p show ?thesis
      by (simp add: rows_of_topic_append rows_of_topic_map)
  qed
qed

lemma rows_from_all_data:
  "concat (map (\<lambda>(t, items). map (make_row t) items)
     (map (\<lambda>(i, topic). (topic, topic_result env country i topic)) ps))
   = concat (map (\<lambda>(i, topic). topic_rows env country i topic) ps)"
  by (induction ps) (auto simp: topic_rows_def)

lemma summarized_final [simp]: "summarized [final_yield env logs df] = []"
  by (simp add: final_yield_def)

lemma summarized_mem: "Summarize d \<in> set evs \<longleftrightarrow> d \<in> set (summarized evs)"
  by (induction evs rule: summarized.induct) auto

lemma run_summary_stage:
  assumes "Summarize d \<in> set (fst (process_all env t1 t2 t3 country))"
  shows "snd (process_all env t1 t2 t3 country) = Returned \<and>
         map ai_out (yields (from_summarize (fst (process_all env t1 t2 t3 country))))
           = map Some (summarize env d) @ [None] \<and>
         (\<forall>s \<in> set (yields (from_summarize (fst (process_all env t1 t2 t3 country)))).
            raw_df s = rows_from env country 0 (valid_topics env t1 t2 t3))"
proof (cases rule: run_cases [of env t1 t2 t3 country])
  case none
  with assms show ?thesis
    by (simp add: abort_yield_def)
next
  case (raised x evs)
  with assms show ?thesis
    by (auto simp: start_yield_def)
next
  case (returned evs all_data sevs logs2)
  let ?valid = "valid_topics env t1 t2 t3"
  let ?tail = "sevs @ [final_yield env logs2 (rows_from env country 0 ?valid)]"
  from returned have "\<forall>e \<in> set (start_yield env ?valid # evs). \<not> is_Summarize e"
    by simp
  note sp = split_at_summarize [OF this, of all_data ?tail]
  from returned have tr: "fst (process_all env t1 t2 t3 country)
      = (start_yield env ?valid # evs) @ Summarize all_data # ?tail"
    by simp
  from only_yields [OF returned(8)] no_summarize [OF returned(4)]
  have "summarized (fst (process_all env t1 t2 t3 country)) = [all_data]"
    unfolding tr by (simp add: summarized_append start_yield_def)
  with assms have "d = all_data"
    by (simp add: summarized_mem)
  with returned show ?thesis
    unfolding tr sp by (simp add: yields_append)
qed

section \<open>Runs in the concrete environment\<close>

lemmas run_simps = process_all_def valid_topics_def strip_def log_def fetch_loop.simps
  summary_loop.simps summarize_def fetch_simps demo_simps demo_failing_def demo_unauthorized_def
  before_fetch_def before_summarize_def from_summarize_def Let_def
  topic_rows_def topic_result_def make_row_def rows_of_topic_def demo_ai_result_def
  demo_table_def rows_from_def

lemma valid_two: "valid_topics demo ''AI'' ''Space'' [] = [''AI'', ''Space'']"
  by (simp add: run_simps)

lemma fetched_two:
  "fetched (fst (process_all demo ''AI'' ''Space'' [] ''US'')) = [(0, ''AI''), (1, ''Space'')]"
  by (simp add: run_simps)

lemma returned_two: "snd (process_all demo ''AI'' ''Space'' [] ''US'') = Returned"
  by (simp add: run_simps)

lemma tables_before_second_fetch:
  "map raw_df (yields (before_fetch 1 (fst (process_all demo ''AI'' ''Space'' [] ''US''))))
     = [[], [], []]"
  by (simp add: run_simps)

lemma tables_before_summary:
  "map raw_df (yields (before_summarize (fst (process_all demo ''AI'' ''Space'' [] ''US''))))
     = [[], [], []]"
  by (simp add: run_simps)

lemma tables_from_summary:
  "map raw_df (yields (from_summarize (fst (process_all demo ''AI'' ''Space'' [] ''US''))))
     = [demo_table, demo_table, demo_table]"
  by (simp add: run_simps)

lemma rows_first_topic:
  "topic_rows demo ''US'' 0 ''AI''
     = [\<lparr>Topic = ''AI'', Source = ''BBC'', Title = ''Chips''\<rparr>,
        \<lparr>Topic = ''AI'', Source = ''Reuters'', Title = ''AI Breakthrough!!''\<rparr>]"
  by (simp add: run_simps)

lemma summarized_twice:
  "summarized (fst (process_all demo ''AI'' ''AI'' [] ''US'')) = [[(''AI'', demo_ai_result)]]"
  by (simp add: run_simps)

lemma rows_twice:
  "length (rows_of_topic ''AI''
     (raw_df (last (yields (fst (process_all demo ''AI'' ''AI'' [] ''US'')))))) = 4"
  by (simp add: run_simps)

lemma returned_twice: "snd (process_all demo ''AI'' ''AI'' [] ''US'') = Returned"
  by (simp add: run_simps)






lemma valid_padded: "valid_topics demo '' AI '' [] [] = ['' AI '']"
  by (simp add: run_simps)

lemma strip_padded: "strip demo '' AI '' = ''AI''"
  by (simp add: run_simps)

lemma fetched_padded: "fetched (fst (process_all demo '' AI '' [] [] ''US'')) = [(0, '' AI '')]"
  by (simp add: run_simps)

lemma valid_blank: "valid_topics demo [] ''  '' [] = []"
  by (simp add: run_simps)

lemma generate_failing:
  "generate_content demo_failing REQUESTED_MODEL (prompt_of d)
     = Inr (map Text [''Impact''] @ Raises (Exn ''quota exceeded'') # [])"
  by (simp add: demo_failing_def demo_def)

lemma generate_unauthorized:
  "generate_content demo_unauthorized REQUESTED_MODEL (prompt_of d)
     = Inl (Exn ''API key not valid'')"
  by (simp add: demo_unauthorized_def demo_def)

lemma summarize_demo_failing:
  "summarize demo_failing [(''AI'', [])] = [''Impact'', error_text (Exn ''quota exceeded'')]"
  by (simp add: run_simps)

lemma summaries_failing:
  "map ai_out (yields (from_summarize (fst (process_all demo_failing ''AI'' [] [] ''US''))))
     = [Some ''Impact'', Some (error_text (Exn ''quota exceeded'')), None]"
  by (simp add: run_simps)

lemma summarized_failing:
  "summarized (fst (process_all demo_failing ''AI'' [] [] ''US'')) = [[(''AI'', demo_ai_result)]]"
  by (simp add: run_simps)

section \<open>Properties of the run\<close>

text \<open>
  Claim C2, as the specification states it: during the fetching stage the rows of a topic
  are in a snapshot yielded before the next topic is fetched. It fails on the topics AI
  and Space: the first topic has two rows, and the three snapshots yielded before the
  fetch of the second topic all carry an empty table.
\<close>

theorem rows_shown_while_fetching_counterexample:
  "fetched (fst (process_all demo ''AI'' ''Space'' [] ''US'')) = [(0, ''AI''), (1, ''Space'')] \<and>
   topic_rows demo ''US'' 0 ''AI''
     = [\<lparr>Topic = ''AI'', Source = ''BBC'', Title = ''Chips''\<rparr>,
        \<lparr>Topic = ''AI'', Source = ''Reuters'', Title = ''AI Breakthrough!!''\<rparr>] \<and>
   map raw_df (yields (before_fetch 1 (fst (process_all demo ''AI'' ''Space'' [] ''US''))))
     = [[], [], []]"
  using fetched_two rows_first_topic tables_before_second_fetch by blast

text \<open>
  Claim C2, amended. Every snapshot yielded before the summarizer is called (the start
  of the run and the whole fetching stage) carries an empty table. The rows of all topics
  are shown together, after the last topic is fetched: every snapshot yielded from the
  call of the summarizer on carries the complete table, and no fetch follows that call.
\<close>

theorem fetching_snapshots_have_empty_table:
  "(\<forall>s \<in> set (yields (before_summarize (fst (process_all env t1 t2 t3 country)))).
      raw_df s = []) \<and>
   (\<forall>s \<in> set (yields (from_summarize (fst (process_all env t1 t2 t3 country)))).
      raw_df s = rows_from env country 0 (valid_topics env t1 t2 t3)) \<and>
   fetched (from_summarize (fst (process_all env t1 t2 t3 country))) = []"
proof (cases rule: run_cases [of env t1 t2 t3 country])
  case none
  then show ?thesis
    by (simp add: abort_yield_def before_summarize_def from_summarize_def)
next
  case (raised x evs)
  then have "\<forall>e \<in> set (start_yield env (valid_topics env t1 t2 t3) # evs). \<not> is_Summarize e"
    by simp
  from split_without_summarize [OF this] raised show ?thesis
    by simp
next
  case (returned evs all_data sevs logs2)
  let ?valid = "valid_topics env t1 t2 t3"
  let ?tail = "sevs @ [final_yield env logs2 (rows_from env country 0 ?valid)]"
  from returned have "\<forall>e \<in> set (start_yield env ?valid # evs). \<not> is_Summarize e"
    by simp
  note sp = split_at_summarize [OF this, of all_data ?tail]
  from returned have tr: "fst (process_all env t1 t2 t3 country)
      = (start_yield env ?valid # evs) @ Summarize all_data # ?tail"
    by simp
  from only_yields [OF returned(8)] have "fetched sevs = []"
    by blast
  then have "fetched (Summarize all_data # ?tail) = []"
    by (simp add: fetched_append final_yield_def)
  with returned show ?thesis
    unfolding tr sp by (simp add: yields_append)
qed

theorem fetching_snapshots_have_empty_table_witness:
  "map raw_df (yields (before_summarize (fst (process_all demo ''AI'' ''Space'' [] ''US''))))
     = [[], [], []] \<and>
   map raw_df (yields (from_summarize (fst (process_all demo ''AI'' ''Space'' [] ''US''))))
     = [demo_table, demo_table, demo_table] \<and>
   rows_from demo ''US'' 0 (valid_topics demo ''AI'' ''Space'' []) = demo_table"
proof -
  note spec = fetching_snapshots_have_empty_table [of demo "''AI''" "''Space''" "[]" "''US''"]
  let ?ys = "yields (from_summarize (fst (process_all demo ''AI'' ''Space'' [] ''US'')))"
  from tables_from_summary obtain s where "s \<in> set ?ys" and "raw_df s = demo_table"
    by (cases ?ys) auto
  with spec have "rows_from demo ''US'' 0 (valid_topics demo ''AI'' ''Space'' []) = demo_table"
    by metis
  with tables_before_summary tables_from_summary show ?thesis
    by blast
qed



text \<open>
  Claim C8, as the specification states it: validation filters the topics to the
  non-empty, trimmed strings. It fails on the topic AI written between two spaces: the
  topic is kept as it was typed, with its spaces, and is fetched so.
\<close>

theorem validation_trims_counterexample:
  "valid_topics demo '' AI '' [] [] = ['' AI ''] \<and>
   strip demo '' AI '' = ''AI'' \<and>
   fetched (fst (process_all demo '' AI '' [] [] ''US'')) = [(0, '' AI '')]"
  using valid_padded strip_padded fetched_padded by blast

text \<open>
  Claim C8, amended. Validation keeps, in order and as they were typed (untrimmed), the
  topics among the three that are non-empty once trimmed. If no topic is kept, the run
  yields a single snapshot with a message for the user and returns: no fetch and no
  summary is attempted.
\<close>

theorem validation_keeps_nonblank:
  "valid_topics env t1 t2 t3 = filter (\<lambda>t. strip env t \<noteq> []) [t1, t2, t3] \<and>
   (valid_topics env t1 t2 t3 = [] \<longrightarrow>
      process_all env t1 t2 t3 country
        = ([Yield \<lparr>ai_out = Some (warning_sign @ '' Please enter at least one topic.''),
                   log_box = ''['' @ now_hms env 0 @ ''] Aborted: No topics entered.'',
                   raw_df = [], main_tabs = Some 0\<rparr>], Returned) \<and>
      fetched (fst (process_all env t1 t2 t3 country)) = [] \<and>
      summarized (fst (process_all env t1 t2 t3 country)) = [])"
proof -
  have "(t \<noteq> [] \<and> strip env t \<noteq> []) = (strip env t \<noteq> [])" for t
    using strip_Nil [of env] by auto
  then have "valid_topics env t1 t2 t3 = filter (\<lambda>t. strip env t \<noteq> []) [t1, t2, t3]"
    unfolding valid_topics_def by simp
  then show ?thesis
    by (simp add: process_all_none abort_yield_def log_def)
qed

theorem validation_keeps_nonblank_witness:
  "valid_topics demo [] ''  '' [] = [] \<and>
   process_all demo [] ''  '' [] ''US''
     = ([Yield \<lparr>ai_out = Some (warning_sign @ '' Please enter at least one topic.''),
                log_box = ''['' @ now_hms demo 0 @ ''] Aborted: No topics entered.'',
                raw_df = [], main_tabs = Some 0\<rparr>], Returned) \<and>
   valid_topics demo '' AI '' [] [] = filter (\<lambda>t. strip demo t \<noteq> []) ['' AI '', [], []]"
  using validation_keeps_nonblank [of demo "[]" "''  ''" "[]" "''US''"]
    validation_keeps_nonblank [of demo "'' AI ''" "[]" "[]" "''US''"] valid_blank
  by blast

text \<open>
  Claim C9, as the specification states it: in the final table the number of rows of each
  topic is the length of that topic's final result. It fails when a topic is entered
  twice: AI is fetched twice and contributes its two rows twice, four rows in all, while
  the dictionary passed to the summarizer holds one entry for AI, of two items.
\<close>

theorem rows_per_topic_counterexample:
  "snd (process_all demo ''AI'' ''AI'' [] ''US'') = Returned \<and>
   summarized (fst (process_all demo ''AI'' ''AI'' [] ''US'')) = [[(''AI'', demo_ai_result)]] \<and>
   length demo_ai_result = 2 \<and>
   length (rows_of_topic ''AI''
     (raw_df (last (yields (fst (process_all demo ''AI'' ''AI'' [] ''US'')))))) = 4"
  using returned_twice summarized_twice rows_twice by (simp add: demo_ai_result_def)

text \<open>
  Claim C9, amended. In the final table of every run that returns, the rows stand topic
  after topic in the order of the validated topics, one group for each fetch, each group
  in the deduplicated order of its fetch. When the validated topics are pairwise
  distinct, the table is the dictionary passed to the summarizer, flattened in its order,
  and the rows of each topic are the rows of that topic's items, as many and in the same
  order.
\<close>

theorem final_table_by_topic:
  assumes "process_all env t1 t2 t3 country = (trace, Returned)"
  shows "raw_df (last (yields trace)) = rows_from env country 0 (valid_topics env t1 t2 t3) \<and>
    (valid_topics env t1 t2 t3 \<noteq> [] \<and> distinct (valid_topics env t1 t2 t3) \<longrightarrow>
      (\<exists>all_data. summarized trace = [all_data] \<and>
         map fst all_data = valid_topics env t1 t2 t3 \<and>
         raw_df (last (yields trace))
           = concat (map (\<lambda>(topic, items). map (make_row topic) items) all_data) \<and>
         (\<forall>topic \<in> set (valid_topics env t1 t2 t3).
            \<exists>items. map_of all_data topic = Some items \<and>
              rows_of_topic topic (raw_df (last (yields trace))) = map (make_row topic) items)))"
proof (cases rule: run_cases [of env t1 t2 t3 country])
  case none
  with assms show ?thesis
    by (auto simp: abort_yield_def rows_from_Nil)
next
  case (raised x evs)
  with assms show ?thesis by simp
next
  case (returned evs all_data sevs logs2)
  let ?valid = "valid_topics env t1 t2 t3"
  let ?table = "rows_from env country 0 ?valid"
  from returned(2) assms
  have tr: "trace = start_yield env ?valid # evs @ Summarize all_data # sevs
                  @ [final_yield env logs2 ?table]"
    by simp
  have last: "raw_df (last (yields trace)) = ?table"
    unfolding tr by (simp add: yields_append)
  from only_yields [OF returned(8)] no_summarize [OF returned(4)]
  have sm: "summarized trace = [all_data]"
    unfolding tr by (simp add: summarized_append start_yield_def)
  have "\<exists>d. summarized trace = [d] \<and> map fst d = ?valid \<and>
         ?table = concat (map (\<lambda>(topic, items). map (make_row topic) items) d) \<and>
         (\<forall>topic \<in> set ?valid.
            \<exists>items. map_of d topic = Some items \<and>
              rows_of_topic topic ?table = map (make_row topic) items)"
    if dist: "distinct ?valid"
  proof -
    from returned(9) dist
    have d: "all_data = map (\<lambda>(i, topic). (topic, topic_result env country i topic))
                          (enumerate 0 ?valid)"
      by blast
    then have keys: "map fst all_data = ?valid"
      by (simp add: comp_def case_prod_beta map_snd_enumerate)
    have table: "?table = concat (map (\<lambda>(topic, items). map (make_row topic) items) all_data)"
      unfolding d rows_from_all_data by (simp add: rows_from_def)
    have "\<exists>items. map_of all_data topic = Some items \<and>
              rows_of_topic topic ?table = map (make_row topic) items"
      if "topic \<in> set ?valid" for topic
    proof -
      from that keys have "topic \<in> fst ` set all_data"
        by (metis set_map)
      then obtain items where look: "map_of all_data topic = Some items"
        by (metis map_of_eq_None_iff not_Some_eq)
      from dist keys have "distinct (map fst all_data)"
        by simp
      from rows_of_topic_present [OF this look] look table show ?thesis
        by simp
    qed
    with sm keys table show ?thesis
      by blast
  qed
  with last show ?thesis
    by simp
qed

theorem final_table_by_topic_witness:
  "process_all demo ''AI'' ''Space'' [] ''US''
     = (fst (process_all demo ''AI'' ''Space'' [] ''US''), Returned) \<and>
   valid_topics demo ''AI'' ''Space'' [] = [''AI'', ''Space''] \<and>
   raw_df (last (yields (fst (process_all demo ''AI'' ''Space'' [] ''US'')))) = demo_table \<and>
   (\<exists>all_data items.
      summarized (fst (process_all demo ''AI'' ''Space'' [] ''US'')) = [all_data] \<and>
      map fst all_data = [''AI'', ''Space''] \<and>
      map_of all_data ''AI'' = Some items \<and>
      rows_of_topic ''AI'' demo_table = map (make_row ''AI'') items)"
proof -
  let ?run = "process_all demo ''AI'' ''Space'' [] ''US''"
  have run: "?run = (fst ?run, Returned)"
    using returned_two by (simp add: prod_eq_iff)
  note spec = final_table_by_topic [OF run]
  have table: "rows_from demo ''US'' 0 [''AI'', ''Space''] = demo_table"
    by (simp add: run_simps)
  with spec have last: "raw_df (last (yields (fst ?run))) = demo_table"
    by (simp add: valid_two)
  have "valid_topics demo ''AI'' ''Space'' [] \<noteq> [] \<and> distinct (valid_topics demo ''AI'' ''Space'' [])"
    by (simp add: valid_two)
  with spec obtain all_data where d: "summarized (fst ?run) = [all_data]"
      "map fst all_data = valid_topics demo ''AI'' ''Space'' []"
    and each: "\<forall>topic \<in> set (valid_topics demo ''AI'' ''Space'' []).
            \<exists>items. map_of all_data topic = Some items \<and>
              rows_of_topic topic (raw_df (last (yields (fst ?run)))) = map (make_row topic) items"
    by blast
  from each obtain items where "map_of all_data ''AI'' = Some items"
    and "rows_of_topic ''AI'' (raw_df (last (yields (fst ?run)))) = map (make_row ''AI'') items"
    by (auto simp: valid_two)
  with d last run valid_two show ?thesis
    by auto
qed

text \<open>
  Claim C6, as the specification states it: when the generation backend fails,
  \<open>summarize\<close> yields exactly one item, the error message. It fails when the backend
  raises after a first chunk: \<open>summarize\<close> yields two items, the text accumulated so far
  and then the error message, and the run shows both.
\<close>

theorem backend_failure_single_item_counterexample:
  "generate_content demo_failing REQUESTED_MODEL (prompt_of [(''AI'', [])])
     = Inr [Text ''Impact'', Raises (Exn ''quota exceeded'')] \<and>
   summarize demo_failing [(''AI'', [])] = [''Impact'', error_text (Exn ''quota exceeded'')] \<and>
   length (summarize demo_failing [(''AI'', [])]) = 2 \<and>
   map ai_out (yields (from_summarize (fst (process_all demo_failing ''AI'' [] [] ''US''))))
     = [Some ''Impact'', Some (error_text (Exn ''quota exceeded'')), None]"
  using generate_failing [of "[(''AI'', [])]"] summarize_demo_failing summaries_failing
  by simp

text \<open>
  Claim C6, amended. If the generation backend fails, at the call or while streaming,
  \<open>summarize\<close> yields the texts accumulated before the failure (none when the failure
  comes before the first non-empty chunk, and then the error message is its only item)
  and then, as its last item, the error message, marked by its prefix; nothing is
  retried. The run returns; the error message is the last summary text it shows, and every
  snapshot from the call of the summarizer on carries the same table, the rows gathered
  by the fetches.
\<close>

theorem backend_failure_ends_summary:
  assumes "all_topics_data \<noteq> []"
    and "generate_content env REQUESTED_MODEL (prompt_of all_topics_data) = Inl e \<and> ts = [] \<or>
         (\<exists>rest. generate_content env REQUESTED_MODEL (prompt_of all_topics_data)
                  = Inr (map Text ts @ Raises e # rest))"
  shows "summarize env all_topics_data = accumulators ts @ [error_text e] \<and>
         (\<forall>t1 t2 t3 country.
            Summarize all_topics_data \<in> set (fst (process_all env t1 t2 t3 country)) \<longrightarrow>
              snd (process_all env t1 t2 t3 country) = Returned \<and>
              map ai_out (yields (from_summarize (fst (process_all env t1 t2 t3 country))))
                = map Some (accumulators ts @ [error_text e]) @ [None] \<and>
              (\<forall>s \<in> set (yields (from_summarize (fst (process_all env t1 t2 t3 country)))).
                 raw_df s = rows_from env country 0 (valid_topics env t1 t2 t3)))"
proof -
  have "summarize env all_topics_data = accumulators ts @ [error_text e]"
    using assms by (rule summarize_failure)
  with run_summary_stage [of all_topics_data env] show ?thesis
    by simp
qed

theorem backend_failure_ends_summary_witness:
  "summarize demo_failing [(''AI'', demo_ai_result)]
     = [''Impact'', error_text (Exn ''quota exceeded'')] \<and>
   Summarize [(''AI'', demo_ai_result)] \<in> set (fst (process_all demo_failing ''AI'' [] [] ''US'')) \<and>
   snd (process_all demo_failing ''AI'' [] [] ''US'') = Returned \<and>
   map ai_out (yields (from_summarize (fst (process_all demo_failing ''AI'' [] [] ''US''))))
     = [Some ''Impact'', Some (error_text (Exn ''quota exceeded'')), None] \<and>
   summarize demo_unauthorized [(''AI'', demo_ai_result)]
     = [error_text (Exn ''API key not valid'')]"
proof -
  have ne: "[(''AI'', demo_ai_result)] \<noteq> []"
    by simp
  have streaming: "generate_content demo_failing REQUESTED_MODEL (prompt_of [(''AI'', demo_ai_result)])
        = Inl (Exn ''quota exceeded'') \<and> [''Impact''] = [] \<or>
      (\<exists>rest. generate_content demo_failing REQUESTED_MODEL (prompt_of [(''AI'', demo_ai_result)])
        = Inr (map Text [''Impact''] @ Raises (Exn ''quota exceeded'') # rest))"
    using generate_failing [of "[(''AI'', demo_ai_result)]"] by blast
  have calling: "generate_content demo_unauthorized REQUESTED_MODEL (prompt_of [(''AI'', demo_ai_result)])
        = Inl (Exn ''API key not valid'') \<and> [] = ([] :: string list) \<or>
      (\<exists>rest. generate_content demo_unauthorized REQUESTED_MODEL (prompt_of [(''AI'', demo_ai_result)])
        = Inr (map Text [] @ Raises (Exn ''API key not valid'') # rest))"
    using generate_unauthorized [of "[(''AI'', demo_ai_result)]"] by blast
  have mem: "Summarize [(''AI'', demo_ai_result)]
      \<in> set (fst (process_all demo_failing ''AI'' [] [] ''US''))"
    by (simp add: summarized_mem summarized_failing)
  have acc: "accumulators [''Impact''] = [''Impact'']" "accumulators [] = []"
    by (simp_all add: accumulators_Cons accumulators_Nil)
  from backend_failure_ends_summary [OF ne streaming] backend_failure_ends_summary [OF ne calling]
    mem acc
  show ?thesis
    by simp
qed

end
